theory Spec2Isabelle
  imports Main
begin

section \<open>The Datajud agent: extraction, routing, query building, normalisation\<close>

text \<open>
  A shallow embedding of \<^verbatim>\<open>datajud_agent.py\<close>. Python strings are lists of
  characters; a \<^typ>\<open>char\<close> stands for a code point in the range 0..255, on which the
  classes \<^verbatim>\<open>\d\<close> and \<^verbatim>\<open>\w\<close> of Python's \<^verbatim>\<open>re\<close> module are the ones written out
  below. Dictionaries are association lists read with \<^const>\<open>map_of\<close>; JSON values, both
  the queries sent and the responses received, are one datatype. Every exception the code
  can raise is a value of \<^verbatim>\<open>error\<close>, returned on the left of a sum.
\<close>

subsection \<open>Constants\<close>

definition API_BASE_URL :: string where
  "API_BASE_URL = ''https://api-publica.datajud.cnj.jus.br''"

definition MAX_RESULTS :: int where
  "MAX_RESULTS = 100"

text \<open>Court codes and their endpoints (a dict, in source order).\<close>

definition COURT_ENDPOINTS :: "(string \<times> string) list" where
  "COURT_ENDPOINTS = [
     (''trf1'', ''api_publica_trf1''), (''trf2'', ''api_publica_trf2''), (''trf3'', ''api_publica_trf3''),
     (''trf4'', ''api_publica_trf4''), (''trf5'', ''api_publica_trf5''), (''trf6'', ''api_publica_trf6''),
     (''tst'', ''api_publica_tst''), (''stj'', ''api_publica_stj''), (''stf'', ''api_publica_stf''),
     (''tre-ac'', ''api_publica_tre-ac''), (''tre-al'', ''api_publica_tre-al''), (''tre-am'', ''api_publica_tre-am''),
     (''tre-ap'', ''api_publica_tre-ap''), (''tre-ba'', ''api_publica_tre-ba''), (''tre-ce'', ''api_publica_tre-ce''),
     (''tre-dft'', ''api_publica_tre-dft''), (''tre-es'', ''api_publica_tre-es''), (''tre-go'', ''api_publica_tre-go''),
     (''tre-ma'', ''api_publica_tre-ma''), (''tre-mg'', ''api_publica_tre-mg''), (''tre-ms'', ''api_publica_tre-ms''),
     (''tre-mt'', ''api_publica_tre-mt''), (''tre-pa'', ''api_publica_tre-pa''), (''tre-pb'', ''api_publica_tre-pb''),
     (''tre-pe'', ''api_publica_tre-pe''), (''tre-pi'', ''api_publica_tre-pi''), (''tre-pr'', ''api_publica_tre-pr''),
     (''tre-rj'', ''api_publica_tre-rj''), (''tre-rn'', ''api_publica_tre-rn''), (''tre-ro'', ''api_publica_tre-ro''),
     (''tre-rr'', ''api_publica_tre-rr''), (''tre-rs'', ''api_publica_tre-rs''), (''tre-sc'', ''api_publica_tre-sc''),
     (''tre-se'', ''api_publica_tre-se''), (''tre-sp'', ''api_publica_tre-sp''), (''tre-to'', ''api_publica_tre-to''),
     (''tjac'', ''api_publica_tjac''), (''tjal'', ''api_publica_tjal''), (''tjam'', ''api_publica_tjam''),
     (''tjap'', ''api_publica_tjap''), (''tjba'', ''api_publica_tjba''), (''tjce'', ''api_publica_tjce''),
     (''tjdft'', ''api_publica_tjdft''), (''tjes'', ''api_publica_tjes''), (''tjgo'', ''api_publica_tjgo''),
     (''tjma'', ''api_publica_tjma''), (''tjmg'', ''api_publica_tjmg''), (''tjms'', ''api_publica_tjms''),
     (''tjmt'', ''api_publica_tjmt''), (''tjpa'', ''api_publica_tjpa''), (''tjpb'', ''api_publica_tjpb''),
     (''tjpe'', ''api_publica_tjpe''), (''tjpi'', ''api_publica_tjpi''), (''tjpr'', ''api_publica_tjpr''),
     (''tjrj'', ''api_publica_tjrj''), (''tjrn'', ''api_publica_tjrn''), (''tjro'', ''api_publica_tjro''),
     (''tjrr'', ''api_publica_tjrr''), (''tjrs'', ''api_publica_tjrs''), (''tjsc'', ''api_publica_tjsc''),
     (''tjse'', ''api_publica_tjse''), (''tjsp'', ''api_publica_tjsp''), (''tjto'', ''api_publica_tjto''),
     (''trt1'', ''api_publica_trt1''), (''trt2'', ''api_publica_trt2''), (''trt3'', ''api_publica_trt3''),
     (''trt4'', ''api_publica_trt4''), (''trt5'', ''api_publica_trt5''), (''trt6'', ''api_publica_trt6''),
     (''trt7'', ''api_publica_trt7''), (''trt8'', ''api_publica_trt8''), (''trt9'', ''api_publica_trt9''),
     (''trt10'', ''api_publica_trt10''), (''trt11'', ''api_publica_trt11''), (''trt12'', ''api_publica_trt12''),
     (''trt13'', ''api_publica_trt13''), (''trt14'', ''api_publica_trt14''), (''trt15'', ''api_publica_trt15''),
     (''trt16'', ''api_publica_trt16''), (''trt17'', ''api_publica_trt17''), (''trt18'', ''api_publica_trt18''),
     (''trt19'', ''api_publica_trt19''), (''trt20'', ''api_publica_trt20''), (''trt21'', ''api_publica_trt21''),
     (''trt22'', ''api_publica_trt22''), (''trt23'', ''api_publica_trt23''), (''trt24'', ''api_publica_trt24'')]"

text \<open>Justice type, then court identifier, to court code; justice type 5 has no entry.\<close>

definition COURT_CODE_MAPPING :: "(string \<times> (string \<times> string) list) list" where
  "COURT_CODE_MAPPING = [
     (''1'', [
        (''01'', ''trf1''), (''02'', ''trf2''), (''03'', ''trf3''), (''04'', ''trf4''), (''05'', ''trf5''),
        (''06'', ''trf6'')]),
     (''2'', [
        (''01'', ''tjac''), (''02'', ''tjal''), (''03'', ''tjap''), (''04'', ''tjam''), (''05'', ''tjba''),
        (''06'', ''tjce''), (''07'', ''tjdft''), (''08'', ''tjes''), (''09'', ''tjgo''), (''10'', ''tjma''),
        (''11'', ''tjmg''), (''12'', ''tjms''), (''13'', ''tjmt''), (''14'', ''tjpa''), (''15'', ''tjpb''),
        (''16'', ''tjpe''), (''17'', ''tjpi''), (''18'', ''tjpr''), (''19'', ''tjrj''), (''20'', ''tjrn''),
        (''21'', ''tjro''), (''22'', ''tjrr''), (''23'', ''tjrs''), (''24'', ''tjsc''), (''25'', ''tjse''),
        (''26'', ''tjsp''), (''27'', ''tjto'')]),
     (''3'', [
        (''01'', ''trt1''), (''02'', ''trt2''), (''03'', ''trt3''), (''04'', ''trt4''), (''05'', ''trt5''),
        (''06'', ''trt6''), (''07'', ''trt7''), (''08'', ''trt8''), (''09'', ''trt9''), (''10'', ''trt10''),
        (''11'', ''trt11''), (''12'', ''trt12''), (''13'', ''trt13''), (''14'', ''trt14''), (''15'', ''trt15''),
        (''16'', ''trt16''), (''17'', ''trt17''), (''18'', ''trt18''), (''19'', ''trt19''), (''20'', ''trt20''),
        (''21'', ''trt21''), (''22'', ''trt22''), (''23'', ''trt23''), (''24'', ''trt24'')]),
     (''4'', [
        (''01'', ''tre-ac''), (''02'', ''tre-al''), (''03'', ''tre-ap''), (''04'', ''tre-am''), (''05'', ''tre-ba''),
        (''06'', ''tre-ce''), (''07'', ''tre-dft''), (''08'', ''tre-es''), (''09'', ''tre-go''), (''10'', ''tre-ma''),
        (''11'', ''tre-mg''), (''12'', ''tre-ms''), (''13'', ''tre-mt''), (''14'', ''tre-pa''), (''15'', ''tre-pb''),
        (''16'', ''tre-pe''), (''17'', ''tre-pi''), (''18'', ''tre-pr''), (''19'', ''tre-rj''), (''20'', ''tre-rn''),
        (''21'', ''tre-ro''), (''22'', ''tre-rr''), (''23'', ''tre-rs''), (''24'', ''tre-sc''), (''25'', ''tre-se''),
        (''26'', ''tre-sp''), (''27'', ''tre-to'')]),
     (''5'', []),
     (''6'', [
        (''00'', ''stf''), (''01'', ''stj''), (''02'', ''tst'')])]"

subsection \<open>Errors, log records, JSON\<close>

datatype error =
    ValueError string
  | RequestException string
  | AttributeError
  | TypeError

datatype level = DEBUG | INFO | WARNING | ERROR

type_synonym log_record = "level \<times> string"

text \<open>
  The logger lets a record of level \<^verbatim>\<open>DEBUG\<close> through only when its own level is
  \<^verbatim>\<open>DEBUG\<close>, which is so once an agent has been created with \<^verbatim>\<open>verbose=True\<close>;
  its level is \<^verbatim>\<open>INFO\<close> otherwise.
\<close>

definition emitted :: "bool \<Rightarrow> log_record list \<Rightarrow> log_record list" where
  "emitted verbose records = filter (\<lambda>r. verbose \<or> fst r \<noteq> DEBUG) records"

text \<open>
  A JSON value as \<^verbatim>\<open>json.loads\<close> builds it. A float is carried as a pair of integers
  and never inspected. An object is an association list in insertion order, read with
  \<^const>\<open>map_of\<close>; a dict holds each key once.
\<close>

datatype json =
    JNull
  | JBool bool
  | JInt int
  | JFloat int int
  | JStr string
  | JArr "json list"
  | JObj "(string \<times> json) list"

definition and_then :: "error + 'a \<Rightarrow> ('a \<Rightarrow> error + 'b) \<Rightarrow> error + 'b" where
  "and_then r f = (case r of Inl e \<Rightarrow> Inl e | Inr v \<Rightarrow> f v)"

text \<open>
  \<^verbatim>\<open>obj.get(key, default)\<close>: only a dict has the method; on anything else the
  attribute lookup raises.
\<close>

definition dict_get :: "json \<Rightarrow> string \<Rightarrow> json \<Rightarrow> error + json" where
  "dict_get obj key dflt =
     (case obj of
        JObj kvs \<Rightarrow> Inr (case map_of kvs key of Some v \<Rightarrow> v | None \<Rightarrow> dflt)
      | _ \<Rightarrow> Inl AttributeError)"

text \<open>
  What a \<^verbatim>\<open>for\<close> loop iterates over: the elements of a list, the keys of a dict, the
  one-character strings of a string; the other values are not iterable.
\<close>

definition py_iter :: "json \<Rightarrow> error + json list" where
  "py_iter v =
     (case v of
        JArr xs \<Rightarrow> Inr xs
      | JObj kvs \<Rightarrow> Inr (map (\<lambda>kv. JStr (fst kv)) kvs)
      | JStr s \<Rightarrow> Inr (map (\<lambda>c. JStr [c]) s)
      | _ \<Rightarrow> Inl TypeError)"

definition py_len :: "json \<Rightarrow> error + nat" where
  "py_len v =
     (case v of
        JArr xs \<Rightarrow> Inr (length xs)
      | JObj kvs \<Rightarrow> Inr (length kvs)
      | JStr s \<Rightarrow> Inr (length s)
      | _ \<Rightarrow> Inl TypeError)"

text \<open>The loop \<^verbatim>\<open>for x in xs: acc.append(f(x))\<close>, stopping at the first exception.\<close>

fun append_each :: "('a \<Rightarrow> error + 'b) \<Rightarrow> 'a list \<Rightarrow> 'b list \<Rightarrow> error + 'b list" where
  "append_each f [] acc = Inr acc"
| "append_each f (x # xs) acc =
     (case f x of Inl e \<Rightarrow> Inl e | Inr y \<Rightarrow> append_each f xs (acc @ [y]))"

subsection \<open>Regular expressions of the shape the agent uses\<close>

text \<open>
  The pattern \<^verbatim>\<open>\b\d{7}-\d{2}\.\d{4}\.\d\.\d{2}\.\d{4}\b\<close> is a sequence of atoms, each
  a word boundary, a digit or a literal character. \<^verbatim>\<open>re.search\<close> tries the start
  positions from left to right, the end of the string included.
\<close>

datatype atom = WordBoundary | Digit | Lit char

definition is_digit :: "char \<Rightarrow> bool" where
  "is_digit c = (let n = (of_char c :: nat) in 48 \<le> n \<and> n \<le> 57)"

definition is_word :: "char \<Rightarrow> bool" where
  "is_word c =
     (let n = (of_char c :: nat) in
        (48 \<le> n \<and> n \<le> 57) \<or> (65 \<le> n \<and> n \<le> 90) \<or> n = 95 \<or> (97 \<le> n \<and> n \<le> 122)
        \<or> n = 170 \<or> (178 \<le> n \<and> n \<le> 179) \<or> n = 181 \<or> (185 \<le> n \<and> n \<le> 186)
        \<or> (188 \<le> n \<and> n \<le> 190) \<or> (192 \<le> n \<and> n \<le> 214) \<or> (216 \<le> n \<and> n \<le> 246)
        \<or> (248 \<le> n \<and> n \<le> 255))"

text \<open>
  \<^verbatim>\<open>\b\<close> holds between the previous character (none at the start) and the next one
  (none at the end) when exactly one of them is a word character.
\<close>

definition at_boundary :: "char option \<Rightarrow> string \<Rightarrow> bool" where
  "at_boundary prev s =
     ((case prev of None \<Rightarrow> False | Some p \<Rightarrow> is_word p)
      \<noteq> (case s of [] \<Rightarrow> False | c # _ \<Rightarrow> is_word c))"

fun match_here :: "atom list \<Rightarrow> char option \<Rightarrow> string \<Rightarrow> string option" where
  "match_here [] prev s = Some []"
| "match_here (WordBoundary # as) prev s =
     (if at_boundary prev s then match_here as prev s else None)"
| "match_here (Digit # as) prev [] = None"
| "match_here (Digit # as) prev (c # cs) =
     (if is_digit c then map_option ((#) c) (match_here as (Some c) cs) else None)"
| "match_here (Lit l # as) prev [] = None"
| "match_here (Lit l # as) prev (c # cs) =
     (if c = l then map_option ((#) c) (match_here as (Some c) cs) else None)"

fun re_search :: "atom list \<Rightarrow> char option \<Rightarrow> string \<Rightarrow> string option" where
  "re_search p prev [] = match_here p prev []"
| "re_search p prev (c # cs) =
     (case match_here p prev (c # cs) of
        Some m \<Rightarrow> Some m
      | None \<Rightarrow> re_search p (Some c) cs)"

subsection \<open>extract_process_number\<close>

definition cnj_digits :: "atom list" where
  "cnj_digits =
     replicate 7 Digit @ [Lit CHR ''-''] @ replicate 2 Digit @ [Lit CHR ''.'']
     @ replicate 4 Digit @ [Lit CHR ''.''] @ [Digit] @ [Lit CHR ''.'']
     @ replicate 2 Digit @ [Lit CHR ''.''] @ replicate 4 Digit"

definition pattern :: "atom list" where
  "pattern = [WordBoundary] @ cnj_digits @ [WordBoundary]"

definition extract_process_number :: "string \<Rightarrow> string option" where
  "extract_process_number text = re_search pattern None text"

subsection \<open>identify_court_from_process_number\<close>

text \<open>
  \<^verbatim>\<open>s.split(sep)\<close> for a one-character separator: a scan that closes the current
  segment at each separator and at the end.
\<close>

fun split_from :: "char \<Rightarrow> string \<Rightarrow> string \<Rightarrow> string list" where
  "split_from sep cur [] = [cur]"
| "split_from sep cur (c # cs) =
     (if c = sep then cur # split_from sep [] cs else split_from sep (cur @ [c]) cs)"

definition split_sep :: "char \<Rightarrow> string \<Rightarrow> string list" where
  "split_sep sep s = split_from sep [] s"

text \<open>
  The function returns the court code, or \<^verbatim>\<open>None\<close>; the model returns with it the
  logging calls the function makes, each with its level; \<open>emitted\<close> gives the records
  the logger lets through. Its \<^verbatim>\<open>except\<close> clause has no branch here: on a string
  neither the split, nor the two index reads after the length test, nor the dict lookups
  can raise.
\<close>

definition identify_court_from_process_number :: "string \<Rightarrow> log_record list \<times> string option" where
  "identify_court_from_process_number process_number =
     (let parts = split_sep CHR ''.'' process_number in
      if length parts \<noteq> 5 then
        ([(WARNING, ''Invalid process number format: '' @ process_number)], None)
      else
        (let justice_type = parts ! 2; court_id = parts ! 3 in
         (case map_of COURT_CODE_MAPPING justice_type of
            Some courts \<Rightarrow>
              (case map_of courts court_id of
                 Some court_code \<Rightarrow>
                   ([(DEBUG, ''Identified court: '' @ court_code @ '' from process number: ''
                             @ process_number)], Some court_code)
               | None \<Rightarrow>
                   ([(WARNING, ''Could not identify court for process number: ''
                               @ process_number)], None))
          | None \<Rightarrow>
              ([(WARNING, ''Could not identify court for process number: ''
                          @ process_number)], None))))"

subsection \<open>Query builders\<close>

text \<open>
  \<^verbatim>\<open>build_process_number_query\<close> also computes \<^verbatim>\<open>clean_number\<close>, the number
  without its hyphen and dots, and never uses it.
\<close>

definition clean_number :: "string \<Rightarrow> string" where
  "clean_number process_number =
     filter (\<lambda>c. c \<noteq> CHR ''.'') (filter (\<lambda>c. c \<noteq> CHR ''-'') process_number)"

definition build_process_number_query :: "string \<Rightarrow> json" where
  "build_process_number_query process_number =
     JObj [
       (''query'', JObj [
          (''bool'', JObj [
             (''must'', JArr [
                JObj [(''match'', JObj [(''numeroProcesso'', JStr process_number)])]])])]),
       (''size'', JInt MAX_RESULTS)]"

text \<open>
  The \<^verbatim>\<open>field\<close> argument defaults to \<^verbatim>\<open>None\<close>; the test \<^verbatim>\<open>if field:\<close> is false for
  \<^verbatim>\<open>None\<close> and for the empty string.
\<close>

definition build_text_search_query :: "string \<Rightarrow> string option \<Rightarrow> json" where
  "build_text_search_query text field =
     (let multi =
        JObj [
          (''query'', JObj [
             (''multi_match'', JObj [
                (''query'', JStr text),
                (''fields'', JArr [JStr ''classe.nome'', JStr ''assunto.nome'',
                                   JStr ''orgaoJulgador.nome'', JStr ''dadosBasicos.valorCausa''])])]),
          (''size'', JInt MAX_RESULTS)]
      in case field of
           None \<Rightarrow> multi
         | Some f \<Rightarrow>
             if f = [] then multi
             else JObj [
                    (''query'', JObj [(''match'', JObj [(f, JStr text)])]),
                    (''size'', JInt MAX_RESULTS)])"

subsection \<open>query_api\<close>

text \<open>
  What the agent reads from outside: the HTTP session (a POST of a JSON body to a URL with
  headers answers with the parsed JSON, or fails with the message of a
  \<^verbatim>\<open>RequestException\<close>), the environment variable holding the API key, and the clock.
\<close>

record env =
  session_post :: "string \<Rightarrow> (string \<times> string) list \<Rightarrow> json \<Rightarrow> string + json"
  api_key :: "string option"
  now_isoformat :: string

text \<open>
  The debug message built after the response arrives evaluates
  \<^verbatim>\<open>len(data.get('hits', {}).get('hits', []))\<close> whatever the log level is, so it can
  raise on a response of another shape.
\<close>

definition query_api :: "env \<Rightarrow> string \<Rightarrow> json \<Rightarrow> error + json" where
  "query_api e court_code query =
     (case map_of COURT_ENDPOINTS court_code of
        None \<Rightarrow> Inl (ValueError (''Invalid court code: '' @ court_code))
      | Some endpoint \<Rightarrow>
          (let url = API_BASE_URL @ ''/'' @ endpoint @ ''/_search'';
               headers = [(''Content-Type'', ''application/json''),
                          (''Accept'', ''application/json'')]
                         @ (case api_key e of
                              None \<Rightarrow> []
                            | Some k \<Rightarrow> if k = [] then [] else [(''X-API-Key'', k)])
           in (case session_post e url headers query of
                 Inl msg \<Rightarrow> Inl (RequestException msg)
               | Inr data \<Rightarrow>
                   and_then (dict_get data ''hits'' (JObj [])) (\<lambda>h.
                   and_then (dict_get h ''hits'' (JArr [])) (\<lambda>hs.
                   and_then (py_len hs) (\<lambda>n. Inr data))))))"

subsection \<open>format_response\<close>

record lawyer =
  lawyer_nome :: json
  lawyer_documento :: json

record party =
  party_tipo :: json
  party_nome :: json
  party_documento :: json
  party_advogados :: "lawyer list"

record movement =
  movement_data :: json
  movement_nome :: json
  movement_complemento :: json

record process =
  numero_processo :: json
  classe :: json
  assunto :: json
  data_ajuizamento :: json
  valor_causa :: json
  orgao_julgador :: json
  partes :: "party list"
  movimentos :: "movement list"

record formatted =
  total_hits :: json
  processes :: "process list"

definition NA :: json where
  "NA = JStr ''N/A''"

text \<open>\<^verbatim>\<open>obj.get(k1, {}).get(k2, "N/A")\<close>.\<close>

definition get2 :: "json \<Rightarrow> string \<Rightarrow> string \<Rightarrow> error + json" where
  "get2 obj k1 k2 = and_then (dict_get obj k1 (JObj [])) (\<lambda>inner. dict_get inner k2 NA)"

definition format_lawyer :: "json \<Rightarrow> error + lawyer" where
  "format_lawyer advogado =
     and_then (get2 advogado ''pessoa'' ''nome'') (\<lambda>nome.
     and_then (get2 advogado ''pessoa'' ''numeroDocumentoPrincipal'') (\<lambda>documento.
     Inr \<lparr>lawyer_nome = nome, lawyer_documento = documento\<rparr>))"

definition format_party :: "json \<Rightarrow> error + party" where
  "format_party parte =
     and_then (dict_get parte ''tipo'' NA) (\<lambda>tipo.
     and_then (get2 parte ''pessoa'' ''nome'') (\<lambda>nome.
     and_then (get2 parte ''pessoa'' ''numeroDocumentoPrincipal'') (\<lambda>documento.
     and_then (dict_get parte ''advogados'' (JArr [])) (\<lambda>advogados.
     and_then (py_iter advogados) (\<lambda>items.
     and_then (append_each format_lawyer items []) (\<lambda>lawyers.
     Inr \<lparr>party_tipo = tipo, party_nome = nome, party_documento = documento,
          party_advogados = lawyers\<rparr>))))))"

definition format_movement :: "json \<Rightarrow> error + movement" where
  "format_movement movimento =
     and_then (dict_get movimento ''data'' NA) (\<lambda>data.
     and_then (dict_get movimento ''nome'' NA) (\<lambda>nome.
     and_then (dict_get movimento ''complemento'' NA) (\<lambda>complemento.
     Inr \<lparr>movement_data = data, movement_nome = nome,
          movement_complemento = complemento\<rparr>)))"

definition format_hit :: "json \<Rightarrow> error + process" where
  "format_hit hit =
     and_then (dict_get hit ''_source'' (JObj [])) (\<lambda>source.
     and_then (dict_get source ''numeroProcesso'' NA) (\<lambda>numero.
     and_then (get2 source ''classe'' ''nome'') (\<lambda>cls.
     and_then (get2 source ''assunto'' ''nome'') (\<lambda>subj.
     and_then (get2 source ''dadosBasicos'' ''dataAjuizamento'') (\<lambda>ajuizamento.
     and_then (get2 source ''dadosBasicos'' ''valorCausa'') (\<lambda>valor.
     and_then (get2 source ''orgaoJulgador'' ''nome'') (\<lambda>orgao.
     and_then (dict_get source ''partes'' (JArr [])) (\<lambda>ps.
     and_then (py_iter ps) (\<lambda>parte_items.
     and_then (append_each format_party parte_items []) (\<lambda>parties.
     and_then (dict_get source ''movimentos'' (JArr [])) (\<lambda>ms.
     and_then (py_iter ms) (\<lambda>movimento_items.
     and_then (append_each format_movement movimento_items []) (\<lambda>movements.
     Inr \<lparr>numero_processo = numero, classe = cls, assunto = subj,
          data_ajuizamento = ajuizamento, valor_causa = valor, orgao_julgador = orgao,
          partes = parties, movimentos = movements\<rparr>)))))))))))))"

definition format_response :: "json \<Rightarrow> error + formatted" where
  "format_response response =
     and_then (dict_get response ''hits'' (JObj [])) (\<lambda>h0.
     and_then (dict_get h0 ''total'' (JObj [])) (\<lambda>total.
     and_then (dict_get total ''value'' (JInt 0)) (\<lambda>total_value.
     and_then (dict_get response ''hits'' (JObj [])) (\<lambda>h1.
     and_then (dict_get h1 ''hits'' (JArr [])) (\<lambda>hits.
     and_then (py_iter hits) (\<lambda>hit_items.
     and_then (append_each format_hit hit_items []) (\<lambda>procs.
     Inr \<lparr>total_hits = total_value, processes = procs\<rparr>)))))))"

subsection \<open>process_query\<close>

record metadata =
  meta_query :: string
  meta_process_number :: "string option"
  meta_court :: string
  meta_timestamp :: string

record result = formatted +
  metadata :: metadata

text \<open>
  The first half of \<^verbatim>\<open>process_query\<close>, after the extraction: the choice of court and
  query, given what \<^verbatim>\<open>extract_process_number\<close> returned. The tests
  \<^verbatim>\<open>if process_number:\<close> and \<^verbatim>\<open>if not court_code:\<close> are truth tests: \<^verbatim>\<open>None\<close> and the
  empty string are both false. The second half sends the query, formats the response and
  adds the metadata; an exception of any step ends the call.
\<close>

definition select_court_and_query :: "string option \<Rightarrow> string \<Rightarrow> error + (string \<times> json)" where
  "select_court_and_query process_number query_text =
     (let free_text = Inr (''stf'', build_text_search_query query_text None) in
      case process_number of
        None \<Rightarrow> free_text
      | Some pn \<Rightarrow>
          (if pn = [] then free_text
           else
             (let not_identified =
                    Inl (ValueError (''Could not identify court for process number: '' @ pn))
              in (case snd (identify_court_from_process_number pn) of
                    None \<Rightarrow> not_identified
                  | Some court_code \<Rightarrow>
                      (if court_code = [] then not_identified
                       else Inr (court_code, build_process_number_query pn))))))"

definition process_query :: "env \<Rightarrow> string \<Rightarrow> error + result" where
  "process_query e query_text =
     (let process_number = extract_process_number query_text in
      and_then (select_court_and_query process_number query_text) (\<lambda>(court_code, query).
      and_then (query_api e court_code query) (\<lambda>response.
      and_then (format_response response) (\<lambda>f.
      Inr \<lparr>total_hits = total_hits f, processes = processes f,
           metadata = \<lparr>meta_query = query_text, meta_process_number = process_number,
                       meta_court = court_code, meta_timestamp = now_isoformat e\<rparr>\<rparr>))))"

subsection \<open>Vocabulary of the properties\<close>

text \<open>
  The identifier grammar \<^verbatim>\<open>\d{7}-\d{2}\.\d{4}\.\d\.\d{2}\.\d{4}\<close>: a string fits it when
  it matches the atoms between the two word boundaries one for one.
\<close>

fun atom_ok :: "atom \<Rightarrow> char \<Rightarrow> bool" where
  "atom_ok WordBoundary c = False"
| "atom_ok Digit c = is_digit c"
| "atom_ok (Lit l) c = (c = l)"

definition cnj_grammar :: "string \<Rightarrow> bool" where
  "cnj_grammar m = list_all2 atom_ok cnj_digits m"

text \<open>
  An occurrence of the grammar at offset \<open>i\<close> of \<open>s\<close>; the occurrence is delimited when no
  word character stands right before or right after it; a token is a delimited occurrence.
\<close>

definition occurs_at :: "string \<Rightarrow> nat \<Rightarrow> bool" where
  "occurs_at s i = (i + 25 \<le> length s \<and> cnj_grammar (take 25 (drop i s)))"

definition delimited_at :: "string \<Rightarrow> nat \<Rightarrow> bool" where
  "delimited_at s i =
     ((i = 0 \<or> \<not> is_word (s ! (i - 1))) \<and> (i + 25 = length s \<or> \<not> is_word (s ! (i + 25))))"

definition token_at :: "string \<Rightarrow> nat \<Rightarrow> bool" where
  "token_at s i = (occurs_at s i \<and> delimited_at s i)"

text \<open>The character before start position \<open>k\<close> of a search begun with \<open>prev\<close> before \<open>s\<close>.\<close>

definition prev_at :: "char option \<Rightarrow> string \<Rightarrow> nat \<Rightarrow> char option" where
  "prev_at prev s k = (if k = 0 then prev else Some (s ! (k - 1)))"

text \<open>The pairs of justice type and court identifier the table lists, and its court codes.\<close>

definition listed_pairs :: "(string \<times> string) list" where
  "listed_pairs =
     concat (map (\<lambda>jt_courts. map (\<lambda>entry. (fst jt_courts, fst entry)) (snd jt_courts))
               COURT_CODE_MAPPING)"

definition mapped_codes :: "string list" where
  "mapped_codes = concat (map (\<lambda>jt_courts. map snd (snd jt_courts)) COURT_CODE_MAPPING)"

text \<open>An exception raised by reading a value of the wrong kind.\<close>

definition shape_error :: "error \<Rightarrow> bool" where
  "shape_error e = (e = AttributeError \<or> e = TypeError)"

text \<open>
  A path into a JSON value: object keys and array positions. \<open>lookup_path\<close> follows it
  and finds nothing when a key is absent, a position is out of range or a value on the
  way is of another kind.
\<close>

datatype step = Key string | Idx nat

fun lookup_path :: "json \<Rightarrow> step list \<Rightarrow> json option" where
  "lookup_path v [] = Some v"
| "lookup_path (JObj kvs) (Key k # rest) =
     (case map_of kvs k of None \<Rightarrow> None | Some v \<Rightarrow> lookup_path v rest)"
| "lookup_path (JArr xs) (Idx n # rest) =
     (if n < length xs then lookup_path (xs ! n) rest else None)"
| "lookup_path v (st # rest) = None"

definition leaf :: "json \<Rightarrow> step list \<Rightarrow> json" where
  "leaf v path = (case lookup_path v path of Some x \<Rightarrow> x | None \<Rightarrow> NA)"

definition items :: "json \<Rightarrow> step list \<Rightarrow> json list" where
  "items v path = (case lookup_path v path of Some (JArr xs) \<Rightarrow> xs | _ \<Rightarrow> [])"

text \<open>The sequences of a response the agent iterates over.\<close>

definition hits_of :: "json \<Rightarrow> json list" where
  "hits_of r = items r [Key ''hits'', Key ''hits'']"

definition partes_of :: "json \<Rightarrow> json list" where
  "partes_of hit = items hit [Key ''_source'', Key ''partes'']"

definition movimentos_of :: "json \<Rightarrow> json list" where
  "movimentos_of hit = items hit [Key ''_source'', Key ''movimentos'']"

definition advogados_of :: "json \<Rightarrow> json list" where
  "advogados_of parte = items parte [Key ''advogados'']"

text \<open>A computation that, when it raises, raises only a shape error.\<close>

definition shape_errors_only :: "error + 'a \<Rightarrow> bool" where
  "shape_errors_only r = (case r of Inl e \<Rightarrow> shape_error e | Inr v \<Rightarrow> True)"

text \<open>
  The inbound schema, every key optional: a key is either absent or holds a value of the
  kind the schema gives it (an object where the agent reads further keys, an array where
  it iterates); the values at the leaves are free.
\<close>

definition is_obj :: "json \<Rightarrow> bool" where
  "is_obj v = (case v of JObj kvs \<Rightarrow> True | _ \<Rightarrow> False)"

definition opt_field :: "(json \<Rightarrow> bool) \<Rightarrow> string \<Rightarrow> json \<Rightarrow> bool" where
  "opt_field P k obj =
     (case obj of
        JObj kvs \<Rightarrow> (case map_of kvs k of None \<Rightarrow> True | Some v \<Rightarrow> P v)
      | _ \<Rightarrow> False)"

definition arr_of :: "(json \<Rightarrow> bool) \<Rightarrow> json \<Rightarrow> bool" where
  "arr_of P v = (case v of JArr xs \<Rightarrow> list_all P xs | _ \<Rightarrow> False)"

definition shaped_lawyer :: "json \<Rightarrow> bool" where
  "shaped_lawyer a = opt_field is_obj ''pessoa'' a"

definition shaped_party :: "json \<Rightarrow> bool" where
  "shaped_party p =
     (opt_field is_obj ''pessoa'' p \<and> opt_field (arr_of shaped_lawyer) ''advogados'' p)"

definition shaped_source :: "json \<Rightarrow> bool" where
  "shaped_source src =
     (opt_field is_obj ''classe'' src \<and> opt_field is_obj ''assunto'' src
      \<and> opt_field is_obj ''dadosBasicos'' src \<and> opt_field is_obj ''orgaoJulgador'' src
      \<and> opt_field (arr_of shaped_party) ''partes'' src
      \<and> opt_field (arr_of is_obj) ''movimentos'' src)"

definition shaped_hit :: "json \<Rightarrow> bool" where
  "shaped_hit h = opt_field shaped_source ''_source'' h"

definition shaped_hits :: "json \<Rightarrow> bool" where
  "shaped_hits h = (opt_field is_obj ''total'' h \<and> opt_field (arr_of shaped_hit) ''hits'' h)"

definition shaped_response :: "json \<Rightarrow> bool" where
  "shaped_response r = opt_field shaped_hits ''hits'' r"

text \<open>
  Normalisation as the specification words it: every leaf is the value at the end of its
  key chain, or the sentinel when the chain is missing; every sequence is mapped element
  by element.
\<close>

definition normalize_lawyer :: "json \<Rightarrow> lawyer" where
  "normalize_lawyer a =
     \<lparr>lawyer_nome = leaf a [Key ''pessoa'', Key ''nome''],
      lawyer_documento = leaf a [Key ''pessoa'', Key ''numeroDocumentoPrincipal'']\<rparr>"

definition normalize_party :: "json \<Rightarrow> party" where
  "normalize_party p =
     \<lparr>party_tipo = leaf p [Key ''tipo''],
      party_nome = leaf p [Key ''pessoa'', Key ''nome''],
      party_documento = leaf p [Key ''pessoa'', Key ''numeroDocumentoPrincipal''],
      party_advogados = map normalize_lawyer (advogados_of p)\<rparr>"

definition normalize_movement :: "json \<Rightarrow> movement" where
  "normalize_movement m =
     \<lparr>movement_data = leaf m [Key ''data''],
      movement_nome = leaf m [Key ''nome''],
      movement_complemento = leaf m [Key ''complemento'']\<rparr>"

definition normalize_record :: "json \<Rightarrow> process" where
  "normalize_record h =
     \<lparr>numero_processo = leaf h [Key ''_source'', Key ''numeroProcesso''],
      classe = leaf h [Key ''_source'', Key ''classe'', Key ''nome''],
      assunto = leaf h [Key ''_source'', Key ''assunto'', Key ''nome''],
      data_ajuizamento = leaf h [Key ''_source'', Key ''dadosBasicos'', Key ''dataAjuizamento''],
      valor_causa = leaf h [Key ''_source'', Key ''dadosBasicos'', Key ''valorCausa''],
      orgao_julgador = leaf h [Key ''_source'', Key ''orgaoJulgador'', Key ''nome''],
      partes = map normalize_party (partes_of h),
      movimentos = map normalize_movement (movimentos_of h)\<rparr>"

definition normalize_response :: "json \<Rightarrow> formatted" where
  "normalize_response r =
     \<lparr>total_hits =
        (case lookup_path r [Key ''hits'', Key ''total'', Key ''value''] of
           Some v \<Rightarrow> v
         | None \<Rightarrow> JInt 0),
      processes = map normalize_record (hits_of r)\<rparr>"

section \<open>Properties\<close>

subsection \<open>The search finds the first delimited occurrence\<close>

lemma match_here_plain:
  "WordBoundary \<notin> set as \<Longrightarrow>
   match_here (as @ bs) prev s =
     (if length as \<le> length s \<and> list_all2 atom_ok as (take (length as) s)
      then map_option ((@) (take (length as) s))
             (match_here bs (if as = [] then prev else Some (s ! (length as - 1)))
                (drop (length as) s))
      else None)"
proof (induction as arbitrary: prev s)
  case Nil
  then show ?case by (cases "match_here bs prev s") simp_all
next
  case (Cons a as)
  show ?case
  proof (cases s)
    case Nil
    then show ?thesis using Cons.prems by (cases a) auto
  next
    case (Cons c cs)
    have nb: "WordBoundary \<notin> set as" using Cons.prems by simp
    show ?thesis
      using Cons.prems Cons.IH [OF nb, of "Some c" cs] Cons
      by (cases a) (auto simp: option.map_comp comp_def nth_Cons' )
  qed
qed

lemma cnj_digits_plain: "WordBoundary \<notin> set cnj_digits"
  by (simp add: cnj_digits_def)

lemma length_cnj_digits: "length cnj_digits = 25"
  by (simp add: cnj_digits_def)

lemma cnj_grammar_length: "cnj_grammar m \<Longrightarrow> length m = 25"
  unfolding cnj_grammar_def using length_cnj_digits list_all2_lengthD by fastforce

lemma is_digit_word: "is_digit c \<Longrightarrow> is_word c"
  by (simp add: is_digit_def is_word_def Let_def)

lemma cnj_grammar_ends: "cnj_grammar m \<Longrightarrow> is_digit (m ! 0) \<and> is_digit (m ! 24)"
proof -
  assume g: "cnj_grammar m"
  have a: "cnj_digits ! 0 = Digit" "cnj_digits ! 24 = Digit"
    by (simp_all add: cnj_digits_def eval_nat_numeral nth_append)
  have "atom_ok (cnj_digits ! 0) (m ! 0)" "atom_ok (cnj_digits ! 24) (m ! 24)"
    using g length_cnj_digits list_all2_nthD [of atom_ok cnj_digits m] unfolding cnj_grammar_def
    by simp_all
  then show ?thesis using a by simp
qed

lemma match_here_pattern:
  "match_here pattern prev s =
     (if 25 \<le> length s \<and> cnj_grammar (take 25 s)
         \<and> (case prev of None \<Rightarrow> True | Some p \<Rightarrow> \<not> is_word p)
         \<and> (25 = length s \<or> \<not> is_word (s ! 25))
      then Some (take 25 s) else None)"
proof (cases "25 \<le> length s \<and> cnj_grammar (take 25 s)")
  case False
  then show ?thesis
    using match_here_plain [OF cnj_digits_plain, of "[WordBoundary]" prev s]
    by (auto simp: pattern_def length_cnj_digits cnj_grammar_def)
next
  case True
  then have d: "is_digit (s ! 0)" "is_digit (s ! 24)"
    using cnj_grammar_ends [of "take 25 s"] by auto
  have ne: "s \<noteq> []" using True by auto
  have b1: "at_boundary prev s = (case prev of None \<Rightarrow> True | Some p \<Rightarrow> \<not> is_word p)"
    using d(1) ne by (cases s; cases prev) (auto simp: at_boundary_def is_digit_word)
  have b2: "at_boundary (Some (s ! 24)) (drop 25 s) = (25 = length s \<or> \<not> is_word (s ! 25))"
  proof (cases "drop 25 s")
    case Nil
    then show ?thesis using True d(2) by (auto simp: at_boundary_def is_digit_word)
  next
    case (Cons c cs)
    then have "s ! 25 = c" "25 < length s"
      using nth_via_drop [of 25 s c cs] drop_eq_Nil2 [of 25 s] by auto
    then show ?thesis using Cons d(2) by (auto simp: at_boundary_def is_digit_word)
  qed
  have nn: "cnj_digits \<noteq> []" using length_cnj_digits by auto
  show ?thesis
    using True match_here_plain [OF cnj_digits_plain, of "[WordBoundary]" prev s] b1 b2 nn
    by (auto simp: pattern_def length_cnj_digits cnj_grammar_def)
qed

lemma re_search_None:
  "re_search p prev s = None \<longleftrightarrow>
     (\<forall>j\<le>length s. match_here p (prev_at prev s j) (drop j s) = None)"
proof (induction s arbitrary: prev)
  case Nil
  then show ?case by (simp add: prev_at_def)
next
  case (Cons c cs)
  have shift: "\<And>j. prev_at prev (c # cs) (Suc j) = prev_at (Some c) cs j"
    by (simp add: prev_at_def nth_Cons')
  have "(\<forall>j\<le>length (c # cs). match_here p (prev_at prev (c # cs) j) (drop j (c # cs)) = None)
        \<longleftrightarrow> match_here p prev (c # cs) = None
            \<and> (\<forall>j\<le>length cs. match_here p (prev_at (Some c) cs j) (drop j cs) = None)"
    (is "?L \<longleftrightarrow> ?A \<and> ?B")
  proof
    assume l: ?L
    have ?A using l [rule_format, of 0] by (simp add: prev_at_def)
    moreover have ?B
    proof (intro allI impI)
      fix j assume "j \<le> length cs"
      then show "match_here p (prev_at (Some c) cs j) (drop j cs) = None"
        using l [rule_format, of "Suc j"] shift by simp
    qed
    ultimately show "?A \<and> ?B" ..
  next
    assume r: "?A \<and> ?B"
    show ?L
    proof (intro allI impI)
      fix j assume j: "j \<le> length (c # cs)"
      show "match_here p (prev_at prev (c # cs) j) (drop j (c # cs)) = None"
      proof (cases j)
        case 0
        then show ?thesis using r by (simp add: prev_at_def)
      next
        case (Suc k)
        then show ?thesis using r j shift by simp
      qed
    qed
  qed
  then show ?case using Cons.IH [of "Some c"] by (simp split: option.splits)
qed

lemma re_search_Some:
  "re_search p prev s = Some m \<longleftrightarrow>
     (\<exists>j\<le>length s. match_here p (prev_at prev s j) (drop j s) = Some m
        \<and> (\<forall>k<j. match_here p (prev_at prev s k) (drop k s) = None))"
proof (induction s arbitrary: prev)
  case Nil
  then show ?case by (simp add: prev_at_def)
next
  case (Cons c cs)
  have shift: "\<And>j. prev_at prev (c # cs) (Suc j) = prev_at (Some c) cs j"
    by (simp add: prev_at_def nth_Cons')
  let ?M = "\<lambda>j. match_here p (prev_at prev (c # cs) j) (drop j (c # cs))"
  let ?N = "\<lambda>j. match_here p (prev_at (Some c) cs j) (drop j cs)"
  have MN: "\<And>j. ?M (Suc j) = ?N j" using shift by simp
  have M0: "?M 0 = match_here p prev (c # cs)" by (simp add: prev_at_def)
  show ?case
  proof (cases "match_here p prev (c # cs)")
    case (Some m')
    have "(\<exists>j\<le>length (c # cs). ?M j = Some m \<and> (\<forall>k<j. ?M k = None)) \<longleftrightarrow> m' = m"
    proof
      assume "\<exists>j\<le>length (c # cs). ?M j = Some m \<and> (\<forall>k<j. ?M k = None)"
      then obtain j where j: "?M j = Some m" "\<forall>k<j. ?M k = None" by blast
      have "j = 0"
      proof (rule ccontr)
        assume "j \<noteq> 0"
        then have "?M 0 = None" using j(2) by blast
        then show False using M0 Some by simp
      qed
      then show "m' = m" using j(1) M0 Some by simp
    next
      assume "m' = m"
      then have "?M 0 = Some m \<and> (\<forall>k<0. ?M k = None)" using M0 Some by simp
      then show "\<exists>j\<le>length (c # cs). ?M j = Some m \<and> (\<forall>k<j. ?M k = None)" by blast
    qed
    then show ?thesis using Some by simp
  next
    case None
    have "(\<exists>j\<le>length (c # cs). ?M j = Some m \<and> (\<forall>k<j. ?M k = None))
          \<longleftrightarrow> (\<exists>j\<le>length cs. ?N j = Some m \<and> (\<forall>k<j. ?N k = None))"
    proof
      assume "\<exists>j\<le>length (c # cs). ?M j = Some m \<and> (\<forall>k<j. ?M k = None)"
      then obtain j where j: "j \<le> length (c # cs)" "?M j = Some m" "\<forall>k<j. ?M k = None" by blast
      have "j \<noteq> 0"
      proof
        assume "j = 0"
        then have "?M 0 = Some m" using j(2) by simp
        then show False using M0 None by simp
      qed
      then obtain i where i: "j = Suc i" by (cases j) auto
      have "?N i = Some m" using j(2) i MN by simp
      moreover have "\<forall>k<i. ?N k = None"
      proof (intro allI impI)
        fix k assume "k < i"
        then have "?M (Suc k) = None" using j(3) i by blast
        then show "?N k = None" using MN by simp
      qed
      moreover have "i \<le> length cs" using j(1) i by simp
      ultimately show "\<exists>j\<le>length cs. ?N j = Some m \<and> (\<forall>k<j. ?N k = None)" by blast
    next
      assume "\<exists>j\<le>length cs. ?N j = Some m \<and> (\<forall>k<j. ?N k = None)"
      then obtain i where i: "i \<le> length cs" "?N i = Some m" "\<forall>k<i. ?N k = None" by blast
      have "?M (Suc i) = Some m" using i(2) MN by simp
      moreover have "\<forall>k<Suc i. ?M k = None"
      proof (intro allI impI)
        fix k assume k: "k < Suc i"
        show "?M k = None"
        proof (cases k)
          case 0
          then show ?thesis using M0 None by simp
        next
          case (Suc k')
          then have "?N k' = None" using i(3) k by simp
          then show ?thesis using MN Suc by simp
        qed
      qed
      moreover have "Suc i \<le> length (c # cs)" using i(1) by simp
      ultimately show "\<exists>j\<le>length (c # cs). ?M j = Some m \<and> (\<forall>k<j. ?M k = None)" by blast
    qed
    then show ?thesis using None Cons.IH [of "Some c" ] by simp
  qed
qed

lemma match_here_token:
  "match_here pattern (prev_at None s j) (drop j s) =
     (if token_at s j then Some (take 25 (drop j s)) else None)"
proof -
  have a: "(25 \<le> length (drop j s)) = (j + 25 \<le> length s)" by auto
  have b: "(case prev_at None s j of None \<Rightarrow> True | Some p \<Rightarrow> \<not> is_word p)
           = (j = 0 \<or> \<not> is_word (s ! (j - 1)))"
    by (simp add: prev_at_def)
  have c: "j + 25 \<le> length s \<Longrightarrow>
           (25 = length (drop j s) \<or> \<not> is_word (drop j s ! 25))
           = (j + 25 = length s \<or> \<not> is_word (s ! (j + 25)))"
    by (cases "j + 25 = length s") auto
  show ?thesis
    unfolding match_here_pattern token_at_def occurs_at_def delimited_at_def
    using a b c by auto
qed

lemma token_at_bound: "token_at s j \<Longrightarrow> j \<le> length s"
  by (simp add: token_at_def occurs_at_def)

text \<open>
  Claim C1, with the word boundaries of the pattern taken into account:
  \<^verbatim>\<open>extract_process_number\<close> returns \<^verbatim>\<open>None\<close> exactly when the text has no token, that
  is, no occurrence of the grammar that is delimited on both sides; otherwise it returns,
  verbatim, the 25 characters of the leftmost token.
\<close>

theorem extract_first_token:
  "(extract_process_number s = None \<longleftrightarrow> (\<forall>i. \<not> token_at s i))
   \<and> (\<forall>m. extract_process_number s = Some m \<longleftrightarrow>
          (\<exists>i. token_at s i \<and> (\<forall>k<i. \<not> token_at s k) \<and> m = take 25 (drop i s)))"
proof (intro conjI allI)
  show "extract_process_number s = None \<longleftrightarrow> (\<forall>i. \<not> token_at s i)"
    unfolding extract_process_number_def re_search_None match_here_token
    using token_at_bound by auto
next
  fix m
  show "extract_process_number s = Some m \<longleftrightarrow>
          (\<exists>i. token_at s i \<and> (\<forall>k<i. \<not> token_at s k) \<and> m = take 25 (drop i s))"
    unfolding extract_process_number_def re_search_Some match_here_token
    using token_at_bound by (auto split: if_splits)
qed

text \<open>An instance: the identifier starts at offset 5, after a space, and a space follows it.\<close>

theorem extract_first_token_witness:
  "token_at ''caso 0000001-70.2020.1.01.0000 (TRF1)'' 5
   \<and> \<not> (\<exists>k<5. token_at ''caso 0000001-70.2020.1.01.0000 (TRF1)'' k)
   \<and> extract_process_number ''caso 0000001-70.2020.1.01.0000 (TRF1)''
       = Some ''0000001-70.2020.1.01.0000''"
proof -
  let ?s = "''caso 0000001-70.2020.1.01.0000 (TRF1)''"
  have a: "token_at ?s 5"
    by (simp add: token_at_def occurs_at_def delimited_at_def cnj_grammar_def cnj_digits_def
          is_digit_def is_word_def eval_nat_numeral)
  have b: "\<forall>k<5. \<not> token_at ?s k"
    by (simp add: token_at_def occurs_at_def delimited_at_def cnj_grammar_def cnj_digits_def
          is_digit_def is_word_def eval_nat_numeral All_less_Suc)
  have c: "take 25 (drop 5 ?s) = ''0000001-70.2020.1.01.0000''"
    by (simp add: eval_nat_numeral)
  have "\<exists>i. token_at ?s i \<and> (\<forall>k<i. \<not> token_at ?s k)
          \<and> ''0000001-70.2020.1.01.0000'' = take 25 (drop i ?s)"
    using a b c by metis
  then have "extract_process_number ?s = Some ''0000001-70.2020.1.01.0000''"
    using extract_first_token [of ?s] by blast
  then show ?thesis using a b by blast
qed

text \<open>
  Without the delimiters the statement fails: an eighth leading digit leaves a substring
  that fits the grammar, from the second character on, and the search finds nothing.
\<close>

theorem extract_substring_counterexample:
  "''12345678-12.2020.1.01.0000'' = ''1'' @ ''2345678-12.2020.1.01.0000'' @ []
   \<and> cnj_grammar ''2345678-12.2020.1.01.0000''
   \<and> extract_process_number ''12345678-12.2020.1.01.0000'' = None"
  by (simp add: extract_process_number_def pattern_def cnj_grammar_def cnj_digits_def
        at_boundary_def is_word_def is_digit_def eval_nat_numeral)

subsection \<open>An extracted identifier has five segments\<close>

lemma split_from_length: "length (split_from sep cur s) = Suc (count_list s sep)"
  by (induction s arbitrary: cur) auto

lemma split_sep_length: "length (split_sep sep s) = Suc (count_list s sep)"
  by (simp add: split_sep_def split_from_length)

lemma atom_ok_dot: "atom_ok a c \<Longrightarrow> (c = CHR ''.'') = (a = Lit CHR ''.'')"
  by (cases a) (auto simp: is_digit_def)

lemma grammar_count_dots:
  "list_all2 atom_ok as m \<Longrightarrow> count_list m CHR ''.'' = count_list as (Lit CHR ''.'')"
  by (induction rule: list_all2_induct) (auto dest: atom_ok_dot)

lemma cnj_grammar_dots: "cnj_grammar m \<Longrightarrow> count_list m CHR ''.'' = 4"
  using grammar_count_dots [of cnj_digits m]
  by (simp add: cnj_grammar_def cnj_digits_def eval_nat_numeral)

lemma extract_grammar: "extract_process_number s = Some m \<Longrightarrow> cnj_grammar m"
  unfolding extract_process_number_def re_search_Some match_here_token
  by (auto simp: token_at_def occurs_at_def split: if_splits)

text \<open>
  Claim C9: a string the extraction returns contains exactly four dots, its split on the
  dot has exactly five segments, and \<^verbatim>\<open>identify_court_from_process_number\<close> does not
  take its invalid-format branch on it (the warning of that branch is not what it logs,
  at either log level).
\<close>

theorem extracted_has_five_segments:
  "extract_process_number s = Some pn \<Longrightarrow>
     count_list pn CHR ''.'' = 4
     \<and> length (split_sep CHR ''.'' pn) = 5
     \<and> fst (identify_court_from_process_number pn)
         \<noteq> [(WARNING, ''Invalid process number format: '' @ pn)]
     \<and> emitted verbose (fst (identify_court_from_process_number pn))
         \<noteq> [(WARNING, ''Invalid process number format: '' @ pn)]"
proof -
  assume "extract_process_number s = Some pn"
  then have d: "count_list pn CHR ''.'' = 4"
    using extract_grammar cnj_grammar_dots by blast
  then have l: "length (split_sep CHR ''.'' pn) = 5"
    by (simp add: split_sep_length)
  have f: "fst (identify_court_from_process_number pn)
         \<noteq> [(WARNING, ''Invalid process number format: '' @ pn)]"
    using l by (simp add: identify_court_from_process_number_def Let_def split: option.splits)
  have "emitted verbose (fst (identify_court_from_process_number pn))
         \<noteq> [(WARNING, ''Invalid process number format: '' @ pn)]"
    using l
    by (simp add: identify_court_from_process_number_def emitted_def Let_def
          split: option.splits)
  then show ?thesis using d l f by blast
qed

theorem extracted_has_five_segments_witness:
  "extract_process_number ''caso 0000001-70.2020.1.01.0000 (TRF1)''
     = Some ''0000001-70.2020.1.01.0000''
   \<and> split_sep CHR ''.'' ''0000001-70.2020.1.01.0000''
       = [''0000001-70'', ''2020'', ''1'', ''01'', ''0000'']
   \<and> emitted True (fst (identify_court_from_process_number ''0000001-70.2020.1.01.0000''))
       = [(DEBUG, ''Identified court: trf1 from process number: 0000001-70.2020.1.01.0000'')]
   \<and> emitted False (fst (identify_court_from_process_number ''0000001-70.2020.1.01.0000''))
       = []"
proof -
  have e: "extract_process_number ''caso 0000001-70.2020.1.01.0000 (TRF1)''
             = Some ''0000001-70.2020.1.01.0000''"
    by (simp add: extract_process_number_def pattern_def cnj_digits_def
        at_boundary_def is_word_def is_digit_def eval_nat_numeral)
  have sp: "split_sep CHR ''.'' ''0000001-70.2020.1.01.0000''
       = [''0000001-70'', ''2020'', ''1'', ''01'', ''0000'']"
    by (simp add: split_sep_def)
  have "length (split_sep CHR ''.'' ''0000001-70.2020.1.01.0000'') = 5"
    using extracted_has_five_segments [OF e] by blast
  then show ?thesis using e sp
    by (simp add: identify_court_from_process_number_def COURT_CODE_MAPPING_def emitted_def)
qed

subsection \<open>Routing\<close>

lemma nested_lookup_listed:
  "map_of COURT_CODE_MAPPING jt = Some courts \<Longrightarrow> map_of courts cid = Some code \<Longrightarrow>
     (jt, cid) \<in> set listed_pairs \<and> code \<in> set mapped_codes"
proof -
  assume a: "map_of COURT_CODE_MAPPING jt = Some courts" and b: "map_of courts cid = Some code"
  have m: "(jt, courts) \<in> set COURT_CODE_MAPPING" using a by (rule map_of_SomeD)
  have c: "(cid, code) \<in> set courts" using b by (rule map_of_SomeD)
  have "(jt, cid) \<in> set listed_pairs"
    unfolding listed_pairs_def using m c by force
  moreover have "code \<in> set mapped_codes"
    unfolding mapped_codes_def using m c by force
  ultimately show ?thesis ..
qed

lemma identify_Some:
  "snd (identify_court_from_process_number pn) = Some code \<Longrightarrow>
     length (split_sep CHR ''.'' pn) = 5
     \<and> (split_sep CHR ''.'' pn ! 2, split_sep CHR ''.'' pn ! 3) \<in> set listed_pairs
     \<and> code \<in> set mapped_codes"
  using nested_lookup_listed
  by (auto simp: identify_court_from_process_number_def Let_def split: if_splits option.splits)


lemma military_unlisted: "(''5'', cid) \<notin> set listed_pairs"
  by (simp add: listed_pairs_def COURT_CODE_MAPPING_def)

lemma mapped_codes_keys: "list_all (\<lambda>c. c \<in> set (map fst COURT_ENDPOINTS)) mapped_codes"
  by (simp add: mapped_codes_def COURT_CODE_MAPPING_def COURT_ENDPOINTS_def)

lemma mapped_codes_endpoints: "c \<in> set mapped_codes \<Longrightarrow> map_of COURT_ENDPOINTS c \<noteq> None"
proof -
  assume "c \<in> set mapped_codes"
  then have "c \<in> set (map fst COURT_ENDPOINTS)"
    using mapped_codes_keys unfolding list_all_iff by blast
  then have "c \<in> fst ` set COURT_ENDPOINTS" by simp
  then show ?thesis by (simp add: map_of_eq_None_iff)
qed

lemma stf_endpoint: "map_of COURT_ENDPOINTS ''stf'' = Some ''api_publica_stf''"
  by (simp add: COURT_ENDPOINTS_def)

lemma extract_nonempty: "extract_process_number s = Some pn \<Longrightarrow> pn \<noteq> []"
  using extract_grammar [of s pn] cnj_grammar_length [of pn] by auto

text \<open>
  Claim C3: no pair under justice type 5 is listed; and for an identifier of five segments
  whose pair of justice type and court identifier is not listed, the court lookup returns
  \<^verbatim>\<open>None\<close>, and \<^verbatim>\<open>process_query\<close> on a text from which that identifier is extracted
  ends in the court-identification \<^verbatim>\<open>ValueError\<close>: no request is sent, no default court
  is used.
\<close>

theorem unlisted_pair_is_an_error:
  "(''5'', court_id) \<notin> set listed_pairs
   \<and> (length (split_sep CHR ''.'' pn) = 5
        \<and> (split_sep CHR ''.'' pn ! 2, split_sep CHR ''.'' pn ! 3) \<notin> set listed_pairs
      \<longrightarrow> snd (identify_court_from_process_number pn) = None
          \<and> (extract_process_number query_text = Some pn \<longrightarrow>
                process_query e query_text
                  = Inl (ValueError (''Could not identify court for process number: '' @ pn))))"
proof (intro conjI impI)
  show "(''5'', court_id) \<notin> set listed_pairs" by (rule military_unlisted)
next
  assume h: "length (split_sep CHR ''.'' pn) = 5
        \<and> (split_sep CHR ''.'' pn ! 2, split_sep CHR ''.'' pn ! 3) \<notin> set listed_pairs"
  show n: "snd (identify_court_from_process_number pn) = None"
  proof (cases "snd (identify_court_from_process_number pn)")
    case None
    then show ?thesis .
  next
    case (Some code)
    then show ?thesis using identify_Some [of pn code] h by blast
  qed
  assume x: "extract_process_number query_text = Some pn"
  then have "pn \<noteq> []" by (rule extract_nonempty)
  then show "process_query e query_text
                  = Inl (ValueError (''Could not identify court for process number: '' @ pn))"
    using n x by (simp add: process_query_def select_court_and_query_def and_then_def Let_def)
qed

theorem unlisted_pair_is_an_error_witness:
  "extract_process_number ''processo 0000001-70.2020.5.01.0000'' = Some ''0000001-70.2020.5.01.0000''
   \<and> split_sep CHR ''.'' ''0000001-70.2020.5.01.0000''
       = [''0000001-70'', ''2020'', ''5'', ''01'', ''0000'']
   \<and> (''5'', ''01'') \<notin> set listed_pairs
   \<and> (\<forall>e. process_query e ''processo 0000001-70.2020.5.01.0000''
         = Inl (ValueError ''Could not identify court for process number: 0000001-70.2020.5.01.0000''))"
proof -
  let ?pn = "''0000001-70.2020.5.01.0000''"
  have x: "extract_process_number ''processo 0000001-70.2020.5.01.0000'' = Some ?pn"
    by (simp add: extract_process_number_def pattern_def cnj_digits_def
        at_boundary_def is_word_def is_digit_def eval_nat_numeral)
  have sp: "split_sep CHR ''.'' ?pn = [''0000001-70'', ''2020'', ''5'', ''01'', ''0000'']"
    by (simp add: split_sep_def)
  have u: "(''5'', ''01'') \<notin> set listed_pairs"
    using unlisted_pair_is_an_error [of "''01''"] by blast
  have "\<forall>e. process_query e ''processo 0000001-70.2020.5.01.0000''
         = Inl (ValueError (''Could not identify court for process number: '' @ ?pn))"
    using unlisted_pair_is_an_error [of "''01''" ?pn "''processo 0000001-70.2020.5.01.0000''"]
      x sp u by simp
  then show ?thesis using x sp u by simp
qed

text \<open>
  Claim C5: when no identifier is found in the text, the router selects the court code
  \<^verbatim>\<open>stf\<close> with the multi-field query over the four fixed fields, in their order, and
  \<^verbatim>\<open>process_query\<close> sends exactly that query to that court.
\<close>

theorem no_identifier_goes_to_stf:
  "extract_process_number query_text = None \<Longrightarrow>
     select_court_and_query (extract_process_number query_text) query_text
       = Inr (''stf'',
              JObj [
                (''query'', JObj [
                   (''multi_match'', JObj [
                      (''query'', JStr query_text),
                      (''fields'', JArr [JStr ''classe.nome'', JStr ''assunto.nome'',
                                         JStr ''orgaoJulgador.nome'',
                                         JStr ''dadosBasicos.valorCausa''])])]),
                (''size'', JInt 100)])
     \<and> process_query e query_text
         = and_then (query_api e ''stf'' (build_text_search_query query_text None))
             (\<lambda>response. and_then (format_response response)
                (\<lambda>f. Inr \<lparr>total_hits = total_hits f, processes = processes f,
                           metadata = \<lparr>meta_query = query_text, meta_process_number = None,
                                       meta_court = ''stf'',
                                       meta_timestamp = now_isoformat e\<rparr>\<rparr>))"
  by (simp add: select_court_and_query_def process_query_def build_text_search_query_def
        MAX_RESULTS_def and_then_def)

theorem no_identifier_goes_to_stf_witness:
  "extract_process_number ''habeas corpus'' = None
   \<and> select_court_and_query (extract_process_number ''habeas corpus'') ''habeas corpus''
       = Inr (''stf'',
              JObj [
                (''query'', JObj [
                   (''multi_match'', JObj [
                      (''query'', JStr ''habeas corpus''),
                      (''fields'', JArr [JStr ''classe.nome'', JStr ''assunto.nome'',
                                         JStr ''orgaoJulgador.nome'',
                                         JStr ''dadosBasicos.valorCausa''])])]),
                (''size'', JInt 100)])"
proof -
  have n: "extract_process_number ''habeas corpus'' = None"
    by (simp add: extract_process_number_def pattern_def cnj_digits_def
        at_boundary_def is_word_def is_digit_def eval_nat_numeral)
  show ?thesis using n no_identifier_goes_to_stf [OF n] by simp
qed

subsection \<open>Query bodies\<close>

text \<open>
  Claim C8: the exact-match body is the one the wire format gives, with the identifier
  embedded as it is, and each of the three query variants (exact, multi-field when no
  field or an empty one is given, single-field otherwise) has \<^verbatim>\<open>size\<close> 100.
\<close>

theorem queries_have_size_100:
  "build_process_number_query process_number
     = JObj [
         (''query'', JObj [
            (''bool'', JObj [
               (''must'', JArr [
                  JObj [(''match'', JObj [(''numeroProcesso'', JStr process_number)])]])])]),
         (''size'', JInt 100)]
   \<and> dict_get (build_process_number_query process_number) ''size'' JNull = Inr (JInt 100)
   \<and> dict_get (build_text_search_query query_text None) ''size'' JNull = Inr (JInt 100)
   \<and> dict_get (build_text_search_query query_text (Some field)) ''size'' JNull = Inr (JInt 100)"
  by (simp add: build_process_number_query_def build_text_search_query_def MAX_RESULTS_def
        dict_get_def)

subsection \<open>Normalisation of a response that follows the schema\<close>

lemma and_then_Inr: "and_then (Inr v) f = f v"
  by (simp add: and_then_def)

lemma and_then_Inl: "and_then (Inl e) f = Inl e"
  by (simp add: and_then_def)

lemma append_each_map:
  "(\<And>x. x \<in> set xs \<Longrightarrow> f x = Inr (g x)) \<Longrightarrow> append_each f xs acc = Inr (acc @ map g xs)"
  by (induction xs arbitrary: acc) simp_all

lemma append_each_all:
  "list_all P xs \<Longrightarrow> (\<And>x. P x \<Longrightarrow> f x = Inr (g x)) \<Longrightarrow> append_each f xs [] = Inr (map g xs)"
  using append_each_map [of xs f g "[]"] by (simp add: list_all_iff)

lemma opt_field_obj: "opt_field P k obj \<Longrightarrow> \<exists>kvs. obj = JObj kvs"
  by (cases obj) (simp_all add: opt_field_def)

lemma opt_field_is_obj: "opt_field P k obj \<Longrightarrow> is_obj obj"
  by (cases obj) (simp_all add: opt_field_def is_obj_def)

lemma is_obj_obj: "is_obj obj \<Longrightarrow> \<exists>kvs. obj = JObj kvs"
  by (cases obj) (simp_all add: is_obj_def)

lemma lookup_empty_obj: "lookup_path (JObj []) (st # rest) = None"
  by (cases st) simp_all

lemma get_leaf: "is_obj obj \<Longrightarrow> dict_get obj k NA = Inr (leaf obj [Key k])"
  by (auto simp: dict_get_def leaf_def dest!: is_obj_obj split: option.splits)

text \<open>A read through one optional inner object, with any default at the end.\<close>

lemma get_inner:
  assumes "opt_field is_obj k1 obj"
  shows "and_then (dict_get obj k1 (JObj [])) (\<lambda>inner. dict_get inner k2 d)
           = Inr (case lookup_path obj [Key k1, Key k2] of Some v \<Rightarrow> v | None \<Rightarrow> d)"
proof -
  obtain kvs where o: "obj = JObj kvs" using assms opt_field_obj by blast
  show ?thesis
  proof (cases "map_of kvs k1")
    case None
    then show ?thesis using o by (simp add: dict_get_def and_then_def)
  next
    case (Some v)
    then have "is_obj v" using assms o by (simp add: opt_field_def)
    then obtain kvs' where "v = JObj kvs'" using is_obj_obj by blast
    then show ?thesis using o Some
      by (simp add: dict_get_def and_then_def split: option.splits)
  qed
qed

lemma get2_leaf: "opt_field is_obj k1 obj \<Longrightarrow> get2 obj k1 k2 = Inr (leaf obj [Key k1, Key k2])"
  unfolding get2_def leaf_def by (rule get_inner)

lemma get_items:
  assumes "opt_field (arr_of P) k obj"
  shows "dict_get obj k (JArr []) = Inr (JArr (items obj [Key k]))"
    and "list_all P (items obj [Key k])"
proof -
  obtain kvs where o: "obj = JObj kvs" using assms opt_field_obj by blast
  show "dict_get obj k (JArr []) = Inr (JArr (items obj [Key k]))"
    using o assms
    by (auto simp: dict_get_def items_def opt_field_def arr_of_def split: option.splits json.splits)
  show "list_all P (items obj [Key k])"
    using o assms
    by (auto simp: items_def opt_field_def arr_of_def split: option.splits json.splits)
qed

text \<open>Stepping into an optional object whose absence reads as the empty object.\<close>

lemma get_object:
  assumes "opt_field P k obj" and "P (JObj [])"
  shows "\<exists>v. dict_get obj k (JObj []) = Inr v \<and> P v
            \<and> (\<forall>st rest. lookup_path obj (Key k # st # rest) = lookup_path v (st # rest))"
proof -
  obtain kvs where o: "obj = JObj kvs" using assms(1) opt_field_obj by blast
  show ?thesis
  proof (cases "map_of kvs k")
    case None
    then show ?thesis using o assms(2) by (simp add: dict_get_def lookup_empty_obj)
  next
    case (Some v)
    then show ?thesis using o assms(1) by (simp add: dict_get_def opt_field_def)
  qed
qed

lemma py_iter_arr: "py_iter (JArr xs) = Inr xs"
  by (simp add: py_iter_def)

lemma format_lawyer_shaped: "shaped_lawyer a \<Longrightarrow> format_lawyer a = Inr (normalize_lawyer a)"
  by (simp add: shaped_lawyer_def format_lawyer_def normalize_lawyer_def get2_leaf and_then_Inr)

lemma format_movement_shaped: "is_obj m \<Longrightarrow> format_movement m = Inr (normalize_movement m)"
  by (simp add: format_movement_def normalize_movement_def get_leaf and_then_Inr)

lemma format_party_shaped:
  assumes "shaped_party p"
  shows "format_party p = Inr (normalize_party p)"
proof -
  have pe: "opt_field is_obj ''pessoa'' p" and ad: "opt_field (arr_of shaped_lawyer) ''advogados'' p"
    using assms by (simp_all add: shaped_party_def)
  have o: "is_obj p" using pe by (rule opt_field_is_obj)
  have lw: "append_each format_lawyer (items p [Key ''advogados'']) []
              = Inr (map normalize_lawyer (items p [Key ''advogados'']))"
    using get_items(2) [OF ad] format_lawyer_shaped by (rule append_each_all)
  show ?thesis
    by (simp add: format_party_def normalize_party_def advogados_of_def get_leaf [OF o]
          get2_leaf [OF pe] get_items(1) [OF ad] py_iter_arr lw and_then_Inr)
qed

lemma shaped_source_empty: "shaped_source (JObj [])"
  by (simp add: shaped_source_def opt_field_def)

lemma shaped_hits_empty: "shaped_hits (JObj [])"
  by (simp add: shaped_hits_def opt_field_def)

lemma format_hit_shaped:
  assumes "shaped_hit h"
  shows "format_hit h = Inr (normalize_record h)"
proof -
  obtain src where g: "dict_get h ''_source'' (JObj []) = Inr src" and s: "shaped_source src"
    and lp: "\<And>st rest. lookup_path h (Key ''_source'' # st # rest) = lookup_path src (st # rest)"
    using get_object [OF assms [unfolded shaped_hit_def] shaped_source_empty] by blast
  have f: "opt_field is_obj ''classe'' src" "opt_field is_obj ''assunto'' src"
    "opt_field is_obj ''dadosBasicos'' src" "opt_field is_obj ''orgaoJulgador'' src"
    and pa: "opt_field (arr_of shaped_party) ''partes'' src"
    and mo: "opt_field (arr_of is_obj) ''movimentos'' src"
    using s by (simp_all add: shaped_source_def)
  have o: "is_obj src" using pa by (rule opt_field_is_obj)
  have ps: "append_each format_party (items src [Key ''partes'']) []
              = Inr (map normalize_party (items src [Key ''partes'']))"
    using get_items(2) [OF pa] format_party_shaped by (rule append_each_all)
  have ms: "append_each format_movement (items src [Key ''movimentos'']) []
              = Inr (map normalize_movement (items src [Key ''movimentos'']))"
    using get_items(2) [OF mo] format_movement_shaped by (rule append_each_all)
  have lf: "\<And>st rest. leaf h (Key ''_source'' # st # rest) = leaf src (st # rest)"
    and it: "\<And>st rest. items h (Key ''_source'' # st # rest) = items src (st # rest)"
    by (simp_all only: leaf_def items_def lp)
  show ?thesis
    unfolding format_hit_def normalize_record_def partes_of_def movimentos_of_def lf it
    by (simp add: g get_leaf [OF o] get2_leaf f get_items(1) [OF pa] get_items(1) [OF mo]
          py_iter_arr ps ms and_then_Inr)
qed

lemma format_response_shaped:
  assumes "shaped_response r"
  shows "format_response r = Inr (normalize_response r)"
proof -
  obtain h where g: "dict_get r ''hits'' (JObj []) = Inr h" and s: "shaped_hits h"
    and lp: "\<And>st rest. lookup_path r (Key ''hits'' # st # rest) = lookup_path h (st # rest)"
    using get_object [OF assms [unfolded shaped_response_def] shaped_hits_empty] by blast
  have t: "opt_field is_obj ''total'' h" and hs: "opt_field (arr_of shaped_hit) ''hits'' h"
    using s by (simp_all add: shaped_hits_def)
  have tv: "and_then (dict_get h ''total'' (JObj [])) (\<lambda>total. dict_get total ''value'' (JInt 0))
              = Inr (case lookup_path h [Key ''total'', Key ''value''] of
                       Some v \<Rightarrow> v | None \<Rightarrow> JInt 0)"
    using t by (rule get_inner)
  have ps: "append_each format_hit (items h [Key ''hits'']) []
              = Inr (map normalize_record (items h [Key ''hits'']))"
    using get_items(2) [OF hs] format_hit_shaped by (rule append_each_all)
  have it: "items r [Key ''hits'', Key ''hits''] = items h [Key ''hits'']"
    by (simp only: items_def lp)
  have "format_response r
          = and_then (and_then (dict_get h ''total'' (JObj []))
                        (\<lambda>total. dict_get total ''value'' (JInt 0)))
              (\<lambda>total_value. Inr \<lparr>total_hits = total_value,
                                   processes = map normalize_record (items h [Key ''hits''])\<rparr>)"
    unfolding format_response_def
    by (simp add: g get_items(1) [OF hs] py_iter_arr ps and_then_Inr)
       (simp add: and_then_def split: sum.splits)
  then show ?thesis
    unfolding tv normalize_response_def hits_of_def it lp by (simp add: and_then_Inr)
qed

lemma lookup_Key_Some:
  "lookup_path v (Key k # rest) = Some x \<Longrightarrow>
     \<exists>kvs w. v = JObj kvs \<and> map_of kvs k = Some w \<and> lookup_path w rest = Some x"
  by (cases v) (auto split: option.splits)

lemma empty_response_shaped:
  assumes "lookup_path r [Key ''hits'', Key ''total'', Key ''value''] = Some t"
    and "lookup_path r [Key ''hits'', Key ''hits''] = Some (JArr [])"
  shows "shaped_response r"
proof -
  obtain kvs h where r: "r = JObj kvs" "map_of kvs ''hits'' = Some h"
    and h1: "lookup_path h [Key ''total'', Key ''value''] = Some t"
    using lookup_Key_Some [OF assms(1)] by blast
  have h2: "lookup_path h [Key ''hits''] = Some (JArr [])" using assms(2) r by simp
  obtain kvs' tot where h: "h = JObj kvs'" "map_of kvs' ''total'' = Some tot"
    and t1: "lookup_path tot [Key ''value''] = Some t"
    using lookup_Key_Some [OF h1] by blast
  have "is_obj tot" using lookup_Key_Some [OF t1] by (auto simp: is_obj_def)
  moreover have "map_of kvs' ''hits'' = Some (JArr [])"
    using lookup_Key_Some [OF h2] h by auto
  ultimately show ?thesis
    using r h by (simp add: shaped_response_def shaped_hits_def opt_field_def arr_of_def)
qed

text \<open>
  Claim C6: on a response that follows the schema with any of its keys missing,
  \<^verbatim>\<open>format_response\<close> does not raise; it returns the normalisation of the response, in
  which the total is the value at \<^verbatim>\<open>hits.total.value\<close>, or 0 when that chain is
  missing, and every leaf is the value at the end of its key chain, or \<^verbatim>\<open>"N/A"\<close> when
  the chain is missing. A response with total 0 and an empty list of hits gives total 0
  and no records.
\<close>

theorem missing_data_defaults:
  "(shaped_response r \<longrightarrow> format_response r = Inr (normalize_response r))
   \<and> (shaped_response r \<and> lookup_path r [Key ''hits'', Key ''total'', Key ''value''] = None
        \<longrightarrow> (\<exists>res. format_response r = Inr res \<and> total_hits res = JInt 0))
   \<and> (lookup_path v path = None \<longrightarrow> leaf v path = JStr ''N/A'')
   \<and> (lookup_path r [Key ''hits'', Key ''total'', Key ''value''] = Some (JInt 0)
        \<and> lookup_path r [Key ''hits'', Key ''hits''] = Some (JArr [])
        \<longrightarrow> format_response r = Inr \<lparr>total_hits = JInt 0, processes = []\<rparr>)"
proof (intro conjI impI)
  assume "shaped_response r"
  then show "format_response r = Inr (normalize_response r)" by (rule format_response_shaped)
next
  assume a: "shaped_response r \<and> lookup_path r [Key ''hits'', Key ''total'', Key ''value''] = None"
  then have "format_response r = Inr (normalize_response r)" by (simp add: format_response_shaped)
  moreover have "total_hits (normalize_response r) = JInt 0"
    using a by (simp add: normalize_response_def)
  ultimately show "\<exists>res. format_response r = Inr res \<and> total_hits res = JInt 0" by simp
next
  assume "lookup_path v path = None"
  then show "leaf v path = JStr ''N/A''" by (simp add: leaf_def NA_def)
next
  assume a: "lookup_path r [Key ''hits'', Key ''total'', Key ''value''] = Some (JInt 0)
        \<and> lookup_path r [Key ''hits'', Key ''hits''] = Some (JArr [])"
  then have "shaped_response r" using empty_response_shaped by blast
  then have "format_response r = Inr (normalize_response r)" by (rule format_response_shaped)
  then show "format_response r = Inr \<lparr>total_hits = JInt 0, processes = []\<rparr>"
    using a by (simp add: normalize_response_def hits_of_def items_def)
qed

text \<open>An instance: no total, one hit with an empty source; and the empty response.\<close>

theorem missing_data_defaults_witness:
  "shaped_response (JObj [(''hits'', JObj [(''hits'', JArr [JObj [(''_source'', JObj [])]])])])
   \<and> lookup_path (JObj [(''hits'', JObj [(''hits'', JArr [JObj [(''_source'', JObj [])]])])])
        [Key ''hits'', Key ''total'', Key ''value''] = None
   \<and> format_response (JObj [(''hits'', JObj [(''hits'', JArr [JObj [(''_source'', JObj [])]])])])
       = Inr \<lparr>total_hits = JInt 0,
              processes = [\<lparr>numero_processo = JStr ''N/A'', classe = JStr ''N/A'',
                            assunto = JStr ''N/A'', data_ajuizamento = JStr ''N/A'',
                            valor_causa = JStr ''N/A'', orgao_julgador = JStr ''N/A'',
                            partes = [], movimentos = []\<rparr>]\<rparr>
   \<and> format_response
         (JObj [(''took'', JInt 5),
                (''hits'', JObj [(''total'', JObj [(''value'', JInt 0), (''relation'', JStr ''eq'')]),
                                 (''max_score'', JNull), (''hits'', JArr [])])])
       = Inr \<lparr>total_hits = JInt 0, processes = []\<rparr>"
proof -
  let ?r = "JObj [(''hits'', JObj [(''hits'', JArr [JObj [(''_source'', JObj [])]])])]"
  let ?e = "JObj [(''took'', JInt 5),
                (''hits'', JObj [(''total'', JObj [(''value'', JInt 0), (''relation'', JStr ''eq'')]),
                                 (''max_score'', JNull), (''hits'', JArr [])])]"
  have s: "shaped_response ?r"
    by (simp add: shaped_response_def shaped_hits_def shaped_hit_def shaped_source_def
          opt_field_def arr_of_def)
  have n: "lookup_path ?r [Key ''hits'', Key ''total'', Key ''value''] = None" by simp
  have "format_response ?r = Inr (normalize_response ?r)"
    using missing_data_defaults [of ?r] s by blast
  then have f: "format_response ?r
       = Inr \<lparr>total_hits = JInt 0,
              processes = [\<lparr>numero_processo = JStr ''N/A'', classe = JStr ''N/A'',
                            assunto = JStr ''N/A'', data_ajuizamento = JStr ''N/A'',
                            valor_causa = JStr ''N/A'', orgao_julgador = JStr ''N/A'',
                            partes = [], movimentos = []\<rparr>]\<rparr>"
    by (simp add: normalize_response_def normalize_record_def hits_of_def partes_of_def
          movimentos_of_def items_def leaf_def NA_def)
  have "lookup_path ?e [Key ''hits'', Key ''total'', Key ''value''] = Some (JInt 0)
        \<and> lookup_path ?e [Key ''hits'', Key ''hits''] = Some (JArr [])" by simp
  then have "format_response ?e = Inr \<lparr>total_hits = JInt 0, processes = []\<rparr>"
    using missing_data_defaults [of ?e] by blast
  then show ?thesis using s n f by blast
qed

text \<open>
  The schema is needed: a key that is present and holds \<^verbatim>\<open>null\<close> where an object is
  read is not missing data, and the read raises.
\<close>

lemma null_object_raises:
  "format_response
     (JObj [(''hits'', JObj [(''hits'', JArr [JObj [(''_source'', JObj [(''classe'', JNull)])]])])])
     = Inl AttributeError"
  by (simp add: format_response_def format_hit_def get2_def dict_get_def py_iter_def and_then_def)

text \<open>
  Claim C7: on a response that follows the schema, the records are the hits mapped one by
  one in their order, and in each record the parties, each party's lawyers and the
  movements are the input sequences mapped one by one in their order; the lengths agree,
  nothing is sorted, dropped or merged.
\<close>

theorem order_is_preserved:
  "shaped_response r \<Longrightarrow>
     \<exists>res. format_response r = Inr res
       \<and> processes res = map normalize_record (hits_of r)
       \<and> length (processes res) = length (hits_of r)
       \<and> (\<forall>i<length (hits_of r).
            partes (processes res ! i) = map normalize_party (partes_of (hits_of r ! i))
            \<and> length (partes (processes res ! i)) = length (partes_of (hits_of r ! i))
            \<and> movimentos (processes res ! i)
                = map normalize_movement (movimentos_of (hits_of r ! i))
            \<and> length (movimentos (processes res ! i)) = length (movimentos_of (hits_of r ! i))
            \<and> (\<forall>j<length (partes_of (hits_of r ! i)).
                 party_advogados (partes (processes res ! i) ! j)
                   = map normalize_lawyer (advogados_of (partes_of (hits_of r ! i) ! j))
                 \<and> length (party_advogados (partes (processes res ! i) ! j))
                     = length (advogados_of (partes_of (hits_of r ! i) ! j))))"
proof -
  assume "shaped_response r"
  then have "format_response r = Inr (normalize_response r)" by (rule format_response_shaped)
  moreover have "processes (normalize_response r) = map normalize_record (hits_of r)"
    by (simp add: normalize_response_def)
  ultimately show ?thesis
    by (simp add: normalize_record_def normalize_party_def)
qed

text \<open>
  An instance: two hits whose numbers are in descending order, the first with three
  movements of which two are equal; the output keeps the order and the repetition.
\<close>

theorem order_is_preserved_witness:
  "shaped_response
     (JObj [(''hits'', JObj [(''hits'', JArr [
        JObj [(''_source'', JObj [(''numeroProcesso'', JStr ''B''),
                                  (''movimentos'', JArr [JObj [(''nome'', JStr ''z'')],
                                                         JObj [(''nome'', JStr ''a'')],
                                                         JObj [(''nome'', JStr ''z'')]])])],
        JObj [(''_source'', JObj [(''numeroProcesso'', JStr ''A'')])]])])])
   \<and> (\<exists>res. format_response
         (JObj [(''hits'', JObj [(''hits'', JArr [
            JObj [(''_source'', JObj [(''numeroProcesso'', JStr ''B''),
                                      (''movimentos'', JArr [JObj [(''nome'', JStr ''z'')],
                                                             JObj [(''nome'', JStr ''a'')],
                                                             JObj [(''nome'', JStr ''z'')]])])],
            JObj [(''_source'', JObj [(''numeroProcesso'', JStr ''A'')])]])])]) = Inr res
        \<and> map numero_processo (processes res) = [JStr ''B'', JStr ''A'']
        \<and> map movement_nome (movimentos (processes res ! 0))
            = [JStr ''z'', JStr ''a'', JStr ''z''])"
proof -
  let ?r = "JObj [(''hits'', JObj [(''hits'', JArr [
        JObj [(''_source'', JObj [(''numeroProcesso'', JStr ''B''),
                                  (''movimentos'', JArr [JObj [(''nome'', JStr ''z'')],
                                                         JObj [(''nome'', JStr ''a'')],
                                                         JObj [(''nome'', JStr ''z'')]])])],
        JObj [(''_source'', JObj [(''numeroProcesso'', JStr ''A'')])]])])]"
  have s: "shaped_response ?r"
    by (simp add: shaped_response_def shaped_hits_def shaped_hit_def shaped_source_def
          opt_field_def arr_of_def is_obj_def)
  have h: "hits_of ?r = [
        JObj [(''_source'', JObj [(''numeroProcesso'', JStr ''B''),
                                  (''movimentos'', JArr [JObj [(''nome'', JStr ''z'')],
                                                         JObj [(''nome'', JStr ''a'')],
                                                         JObj [(''nome'', JStr ''z'')]])])],
        JObj [(''_source'', JObj [(''numeroProcesso'', JStr ''A'')])]]"
    by (simp add: hits_of_def items_def)
  obtain res where f: "format_response ?r = Inr res"
    and p: "processes res = map normalize_record (hits_of ?r)"
    using order_is_preserved [OF s] by blast
  have a: "map numero_processo (processes res) = [JStr ''B'', JStr ''A'']"
    unfolding p h by (simp add: normalize_record_def leaf_def)
  have b: "map movement_nome (movimentos (processes res ! 0))
            = [JStr ''z'', JStr ''a'', JStr ''z'']"
    unfolding p h
    by (simp add: normalize_record_def normalize_movement_def movimentos_of_def items_def leaf_def)
  show ?thesis
    by (rule conjI [OF s], rule exI [of _ res]) (simp add: f a b)
qed

text \<open>
  Claim C4: take any identifier \<open>X\<close> and a response that follows the schema and has a
  single hit whose \<^verbatim>\<open>_source.numeroProcesso\<close> is \<open>X\<close>. Normalising it gives exactly one
  record, its number is \<open>X\<close>, and that is the value the exact-match query built for \<open>X\<close>
  asks for.
\<close>

theorem exact_match_round_trip:
  "shaped_response r \<Longrightarrow> hits_of r = [hit] \<Longrightarrow>
   lookup_path hit [Key ''_source'', Key ''numeroProcesso''] = Some (JStr X) \<Longrightarrow>
     \<exists>res p. format_response r = Inr res \<and> processes res = [p]
       \<and> numero_processo p = JStr X
       \<and> lookup_path (build_process_number_query X)
            [Key ''query'', Key ''bool'', Key ''must'', Idx 0, Key ''match'', Key ''numeroProcesso'']
           = Some (numero_processo p)"
proof -
  assume s: "shaped_response r" and h: "hits_of r = [hit]"
    and n: "lookup_path hit [Key ''_source'', Key ''numeroProcesso''] = Some (JStr X)"
  have "format_response r = Inr (normalize_response r)" using s by (rule format_response_shaped)
  moreover have "processes (normalize_response r) = [normalize_record hit]"
    using h by (simp add: normalize_response_def)
  moreover have "numero_processo (normalize_record hit) = JStr X"
    using n by (simp add: normalize_record_def leaf_def)
  moreover have "lookup_path (build_process_number_query X)
            [Key ''query'', Key ''bool'', Key ''must'', Idx 0, Key ''match'', Key ''numeroProcesso'']
           = Some (JStr X)"
    by (simp add: build_process_number_query_def)
  ultimately show ?thesis by simp
qed

theorem exact_match_round_trip_witness:
  "\<exists>res p. format_response
       (JObj [(''hits'', JObj [
          (''total'', JObj [(''value'', JInt 1)]),
          (''hits'', JArr [JObj [(''_source'', JObj [
             (''numeroProcesso'', JStr ''0000001-70.2020.6.00.0000''),
             (''classe'', JObj [(''nome'', JStr ''Habeas Corpus'')])])]])])]) = Inr res
     \<and> processes res = [p]
     \<and> numero_processo p = JStr ''0000001-70.2020.6.00.0000''"
proof -
  let ?hit = "JObj [(''_source'', JObj [
             (''numeroProcesso'', JStr ''0000001-70.2020.6.00.0000''),
             (''classe'', JObj [(''nome'', JStr ''Habeas Corpus'')])])]"
  let ?r = "JObj [(''hits'', JObj [(''total'', JObj [(''value'', JInt 1)]),
                                   (''hits'', JArr [?hit])])]"
  have s: "shaped_response ?r"
    by (simp add: shaped_response_def shaped_hits_def shaped_hit_def shaped_source_def
          opt_field_def arr_of_def is_obj_def)
  have h: "hits_of ?r = [?hit]" by (simp add: hits_of_def items_def)
  have n: "lookup_path ?hit [Key ''_source'', Key ''numeroProcesso'']
             = Some (JStr ''0000001-70.2020.6.00.0000'')" by simp
  show ?thesis using exact_match_round_trip [OF s h n] by blast
qed

subsection \<open>A routed court code has an endpoint\<close>

lemma so_Inr: "shape_errors_only (Inr v)"
  by (simp add: shape_errors_only_def)

lemma so_and_then:
  "shape_errors_only r \<Longrightarrow> (\<And>v. shape_errors_only (f v)) \<Longrightarrow> shape_errors_only (and_then r f)"
  by (cases r) (simp_all add: shape_errors_only_def and_then_def)

lemma so_dict_get: "shape_errors_only (dict_get obj k d)"
  by (cases obj) (simp_all add: shape_errors_only_def dict_get_def shape_error_def)

lemma so_py_iter: "shape_errors_only (py_iter v)"
  by (cases v) (simp_all add: shape_errors_only_def py_iter_def shape_error_def)

lemma so_py_len: "shape_errors_only (py_len v)"
  by (cases v) (simp_all add: shape_errors_only_def py_len_def shape_error_def)

lemma so_get2: "shape_errors_only (get2 obj k1 k2)"
  unfolding get2_def by (intro so_and_then so_dict_get)

lemma so_append_each:
  "(\<And>x. shape_errors_only (f x)) \<Longrightarrow> shape_errors_only (append_each f xs acc)"
proof (induction xs arbitrary: acc)
  case Nil
  then show ?case by (simp add: so_Inr)
next
  case (Cons x xs)
  show ?case
  proof (cases "f x")
    case (Inl e)
    then show ?thesis using Cons.prems [of x] by (simp add: shape_errors_only_def)
  next
    case (Inr y)
    then show ?thesis using Cons.IH [OF Cons.prems] by simp
  qed
qed

lemma so_format_lawyer: "shape_errors_only (format_lawyer a)"
  unfolding format_lawyer_def by (intro so_and_then so_get2 so_Inr)

lemma so_format_movement: "shape_errors_only (format_movement m)"
  unfolding format_movement_def by (intro so_and_then so_dict_get so_Inr)

lemma so_format_party: "shape_errors_only (format_party p)"
  unfolding format_party_def
  by (intro so_and_then so_dict_get so_get2 so_py_iter so_append_each so_format_lawyer so_Inr)

lemma so_format_hit: "shape_errors_only (format_hit h)"
  unfolding format_hit_def
  by (intro so_and_then so_dict_get so_get2 so_py_iter so_append_each so_format_party
        so_format_movement so_Inr)

lemma so_format_response: "shape_errors_only (format_response r)"
  unfolding format_response_def
  by (intro so_and_then so_dict_get so_py_iter so_append_each so_format_hit so_Inr)

lemma shape_error_not_ValueError: "shape_errors_only r \<Longrightarrow> r \<noteq> Inl (ValueError m)"
  by (auto simp: shape_errors_only_def shape_error_def)

lemma query_api_known_court:
  assumes "map_of COURT_ENDPOINTS court_code \<noteq> None"
  shows "query_api e court_code query \<noteq> Inl (ValueError m)"
proof -
  obtain endpoint where ep: "map_of COURT_ENDPOINTS court_code = Some endpoint"
    using assms by blast
  have "\<And>data. and_then (dict_get data ''hits'' (JObj [])) (\<lambda>h.
                 and_then (dict_get h ''hits'' (JArr [])) (\<lambda>hs.
                 and_then (py_len hs) (\<lambda>n. Inr data))) \<noteq> Inl (ValueError m)"
    by (intro shape_error_not_ValueError so_and_then so_dict_get so_py_len so_Inr)
  then show ?thesis
    unfolding query_api_def by (simp add: ep Let_def split: sum.splits)
qed

lemma routed_code:
  assumes "select_court_and_query (extract_process_number query_text) query_text
             = Inr (court_code, query)"
  shows "map_of COURT_ENDPOINTS court_code \<noteq> None"
proof (cases "extract_process_number query_text")
  case None
  then have "court_code = ''stf''" using assms by (simp add: select_court_and_query_def)
  then show ?thesis by (simp add: stf_endpoint)
next
  case (Some pn)
  have ne: "pn \<noteq> []" using Some by (rule extract_nonempty)
  have "snd (identify_court_from_process_number pn) = Some court_code"
    using assms Some ne
    by (auto simp: select_court_and_query_def Let_def split: option.splits if_splits)
  then have "court_code \<in> set mapped_codes" using identify_Some by blast
  then show ?thesis by (rule mapped_codes_endpoints)
qed

text \<open>
  Claim C10: every court code that is a value of \<^verbatim>\<open>COURT_CODE_MAPPING\<close> is a key of
  \<^verbatim>\<open>COURT_ENDPOINTS\<close>, and so is \<^verbatim>\<open>stf\<close>; hence the court code the router selects
  always has an endpoint, \<^verbatim>\<open>query_api\<close> does not raise its invalid-court-code error on
  it, and \<^verbatim>\<open>process_query\<close> never ends in that error.
\<close>

theorem routed_court_has_endpoint:
  "(map_of COURT_CODE_MAPPING justice_type = Some courts \<and> map_of courts court_id = Some code
      \<longrightarrow> map_of COURT_ENDPOINTS code \<noteq> None)
   \<and> map_of COURT_ENDPOINTS ''stf'' \<noteq> None
   \<and> (select_court_and_query (extract_process_number query_text) query_text
         = Inr (court_code, query)
      \<longrightarrow> map_of COURT_ENDPOINTS court_code \<noteq> None
          \<and> query_api e court_code query \<noteq> Inl (ValueError (''Invalid court code: '' @ court_code)))
   \<and> process_query e query_text \<noteq> Inl (ValueError (''Invalid court code: '' @ c))"
proof (intro conjI impI)
  assume "map_of COURT_CODE_MAPPING justice_type = Some courts \<and> map_of courts court_id = Some code"
  then have "code \<in> set mapped_codes" using nested_lookup_listed by blast
  then show "map_of COURT_ENDPOINTS code \<noteq> None" by (rule mapped_codes_endpoints)
next
  show "map_of COURT_ENDPOINTS ''stf'' \<noteq> None" by (simp add: stf_endpoint)
next
  assume a: "select_court_and_query (extract_process_number query_text) query_text
         = Inr (court_code, query)"
  then show k: "map_of COURT_ENDPOINTS court_code \<noteq> None" by (rule routed_code)
  show "query_api e court_code query \<noteq> Inl (ValueError (''Invalid court code: '' @ court_code))"
    using k by (rule query_api_known_court)
next
  show "process_query e query_text \<noteq> Inl (ValueError (''Invalid court code: '' @ c))"
  proof (cases "select_court_and_query (extract_process_number query_text) query_text")
    case (Inl err)
    then have "err \<noteq> ValueError (''Invalid court code: '' @ c)"
      by (auto simp: select_court_and_query_def Let_def split: option.splits if_splits)
    then show ?thesis using Inl by (simp add: process_query_def and_then_def)
  next
    case (Inr cq)
    obtain cc q where cq: "cq = (cc, q)" by (cases cq)
    have k: "map_of COURT_ENDPOINTS cc \<noteq> None" using Inr cq routed_code by blast
    show ?thesis
    proof (cases "query_api e cc q")
      case (Inl err)
      then have "err \<noteq> ValueError (''Invalid court code: '' @ c)"
        using query_api_known_court [OF k, of e q] by auto
      then show ?thesis using Inr cq Inl by (simp add: process_query_def and_then_def)
    next
      case r: (Inr response)
      show ?thesis
      proof (cases "format_response response")
        case (Inl err)
        then have "err \<noteq> ValueError (''Invalid court code: '' @ c)"
          using shape_error_not_ValueError [OF so_format_response, of response] by auto
        then show ?thesis using Inr cq r Inl by (simp add: process_query_def and_then_def)
      next
        case f: (Inr fm)
        show ?thesis using Inr cq r f by (simp add: process_query_def and_then_def)
      qed
    qed
  qed
qed

theorem routed_court_has_endpoint_witness:
  "map_of COURT_CODE_MAPPING ''6'' = Some [(''00'', ''stf''), (''01'', ''stj''), (''02'', ''tst'')]
   \<and> map_of [(''00'', ''stf''), (''01'', ''stj''), (''02'', ''tst'')] ''02'' = Some ''tst''
   \<and> map_of COURT_ENDPOINTS ''tst'' \<noteq> None
   \<and> select_court_and_query (extract_process_number ''0000005-20.2020.6.02.0000'')
        ''0000005-20.2020.6.02.0000''
       = Inr (''tst'', build_process_number_query ''0000005-20.2020.6.02.0000'')
   \<and> (\<forall>e. query_api e ''tst'' (build_process_number_query ''0000005-20.2020.6.02.0000'')
          \<noteq> Inl (ValueError ''Invalid court code: tst''))"
proof -
  let ?t = "''0000005-20.2020.6.02.0000''"
  have m: "map_of COURT_CODE_MAPPING ''6'' = Some [(''00'', ''stf''), (''01'', ''stj''), (''02'', ''tst'')]"
    by (simp add: COURT_CODE_MAPPING_def)
  have c: "map_of [(''00'', ''stf''), (''01'', ''stj''), (''02'', ''tst'')] ''02'' = Some ''tst''"
    by simp
  have x: "extract_process_number ?t = Some ?t"
    by (simp add: extract_process_number_def pattern_def cnj_digits_def
        at_boundary_def is_word_def is_digit_def eval_nat_numeral)
  have sp: "split_sep CHR ''.'' ?t = [''0000005-20'', ''2020'', ''6'', ''02'', ''0000'']"
    by (simp add: split_sep_def)
  have s: "select_court_and_query (extract_process_number ?t) ?t
             = Inr (''tst'', build_process_number_query ?t)"
    unfolding x
    by (simp add: select_court_and_query_def identify_court_from_process_number_def sp m)
  have k: "map_of COURT_ENDPOINTS ''tst'' \<noteq> None"
    using routed_court_has_endpoint [of "''6''" "[(''00'', ''stf''), (''01'', ''stj''), (''02'', ''tst'')]"
        "''02''" "''tst''"] m c by blast
  have "\<forall>e. query_api e ''tst'' (build_process_number_query ?t)
          \<noteq> Inl (ValueError (''Invalid court code: '' @ ''tst''))"
    using routed_court_has_endpoint [of _ _ _ _ ?t "''tst''" "build_process_number_query ?t"] s
    by blast
  then show ?thesis using m c k s by simp
qed

subsection \<open>A malformed identifier is an extraction miss\<close>









end
